theory Spec2Isabelle
  imports Complex_Main "HOL-Library.AList"
begin

section \<open>Errors\<close>

text \<open>
  Every \<^verbatim>\<open>throw new Error(msg)\<close> of \<^verbatim>\<open>src/index.ts\<close> is the value \<open>Error msg\<close>; a
  \<^verbatim>\<open>RangeError\<close> raised by the engine (\<^verbatim>\<open>Intl.DateTimeFormat\<close> on an unknown zone,
  \<^verbatim>\<open>formatToParts\<close> and \<^verbatim>\<open>toISOString\<close> on an invalid date) is \<open>RangeError msg\<close>.
  A fallible function returns \<open>error + 'a\<close>, with \<open>Inl\<close> the error.
\<close>

datatype error = Error string | RangeError string

section \<open>The engine's calendar: time values, \<^verbatim>\<open>Date.UTC\<close>, \<^verbatim>\<open>new Date\<close>\<close>

text \<open>
  A time value is a number of milliseconds since 1970-01-01T00:00:00Z. A number that
  holds a time value is \<open>int option\<close>, with \<open>None\<close> for \<^verbatim>\<open>NaN\<close>; all the integers that
  occur are below \<open>2^53\<close>, where the arithmetic of doubles is exact. A \<^verbatim>\<open>Date\<close> object is
  \<open>Date t\<close> or the invalid date (whose time value is \<^verbatim>\<open>NaN\<close>).
\<close>

datatype jsdate = Date int | InvalidDate

definition msPerDay :: int where
  "msPerDay = 24 * 60 * 60 * 1000"

text \<open>
  Day number (days since 1970-01-01) of a date of the proleptic Gregorian calendar, and
  back. ECMAScript states \<^verbatim>\<open>YearFromTime\<close>, \<^verbatim>\<open>MonthFromTime\<close>, \<^verbatim>\<open>DateFromTime\<close> and
  \<^verbatim>\<open>MakeDay\<close> by these two maps; the arithmetic is the usual one on years that start
  in March, in eras of 400 years (146097 days).
\<close>

definition days_from_civil :: "int \<Rightarrow> int \<Rightarrow> int \<Rightarrow> int" where
  "days_from_civil y m d =
     (let y' = (if m \<le> 2 then y - 1 else y);
          era = y' div 400;
          yoe = y' mod 400;
          mp = (if m > 2 then m - 3 else m + 9);
          doy = (153 * mp + 2) div 5 + d - 1;
          doe = yoe * 365 + yoe div 4 - yoe div 100 + doy
      in era * 146097 + doe - 719468)"

text \<open>
  From the day of the era (0 .. 146096, counted from 1 March) to the year of the era
  (0 .. 399) and the day of that year (0 .. 365, counted from 1 March): whole centuries
  of 36524 days, then whole four-year cycles of 1461 days, then whole years.
\<close>

definition year_of_era :: "int \<Rightarrow> int \<times> int" where
  "year_of_era doe =
     (let c = min 3 (doe div 36524);
          doc = doe - c * 36524;
          q = doc div 1461;
          r = doc - q * 1461;
          yr = min 3 (r div 365)
      in (c * 100 + q * 4 + yr, r - yr * 365))"

definition civil_from_days :: "int \<Rightarrow> int \<times> int \<times> int" where
  "civil_from_days z =
     (let z' = z + 719468;
          era = z' div 146097;
          yd = year_of_era (z' mod 146097);
          doy = snd yd;
          mp = (5 * doy + 2) div 153;
          d = doy - (153 * mp + 2) div 5 + 1;
          m = (if mp < 10 then mp + 3 else mp - 9)
      in (fst yd + era * 400 + (if m \<le> 2 then 1 else 0), m, d))"

text \<open>\<^verbatim>\<open>MakeDay(year, month, date)\<close>: \<open>month\<close> counts from 0 and may lie outside 0..11.\<close>

definition MakeDay :: "int \<Rightarrow> int \<Rightarrow> int \<Rightarrow> int" where
  "MakeDay y m dt = days_from_civil (y + m div 12) (m mod 12 + 1) 1 + dt - 1"

definition MakeTime :: "int \<Rightarrow> int \<Rightarrow> int \<Rightarrow> int \<Rightarrow> int" where
  "MakeTime h mi s ms = h * 3600000 + mi * 60000 + s * 1000 + ms"

definition MakeDate :: "int \<Rightarrow> int \<Rightarrow> int" where
  "MakeDate dy tm = dy * msPerDay + tm"

text \<open>\<^verbatim>\<open>TimeClip\<close>: a time value beyond 8.64e15 ms on either side is \<^verbatim>\<open>NaN\<close>.\<close>

definition TimeClip :: "int \<Rightarrow> int option" where
  "TimeClip t = (if \<bar>t\<bar> > 8640000000000000 then None else Some t)"

text \<open>\<^verbatim>\<open>Date.UTC\<close> reads a year from 0 to 99 as 1900 + year.\<close>

definition MakeFullYear :: "int \<Rightarrow> int" where
  "MakeFullYear y = (if 0 \<le> y \<and> y \<le> 99 then 1900 + y else y)"

definition Date_UTC :: "int \<Rightarrow> int \<Rightarrow> int \<Rightarrow> int \<Rightarrow> int \<Rightarrow> int \<Rightarrow> int \<Rightarrow> int option" where
  "Date_UTC y m d h mi s ms =
     TimeClip (MakeDate (MakeDay (MakeFullYear y) m d) (MakeTime h mi s ms))"

text \<open>\<^verbatim>\<open>new Date(value)\<close> for a number that holds a time value.\<close>

fun new_Date :: "int option \<Rightarrow> jsdate" where
  "new_Date None = InvalidDate"
| "new_Date (Some t) = (case TimeClip t of None \<Rightarrow> InvalidDate | Some t' \<Rightarrow> Date t')"

fun getTime :: "jsdate \<Rightarrow> int option" where
  "getTime (Date t) = Some t"
| "getTime InvalidDate = None"

text \<open>Subtraction and \<^verbatim>\<open>===\<close> on numbers: \<^verbatim>\<open>NaN\<close> absorbs, and equals nothing.\<close>

fun num_minus :: "int option \<Rightarrow> int option \<Rightarrow> int option" where
  "num_minus (Some a) (Some b) = Some (a - b)"
| "num_minus _ _ = None"

fun num_eq :: "int option \<Rightarrow> int option \<Rightarrow> bool" where
  "num_eq (Some a) (Some b) = (a = b)"
| "num_eq _ _ = False"

text \<open>The UTC getters of a valid date, on its time value.\<close>

definition getUTCFullYear :: "int \<Rightarrow> int" where
  "getUTCFullYear t = fst (civil_from_days (t div msPerDay))"

definition getUTCMonth :: "int \<Rightarrow> int" where
  "getUTCMonth t = fst (snd (civil_from_days (t div msPerDay))) - 1"

definition getUTCDate :: "int \<Rightarrow> int" where
  "getUTCDate t = snd (snd (civil_from_days (t div msPerDay)))"

definition getUTCHours :: "int \<Rightarrow> int" where
  "getUTCHours t = t mod msPerDay div 3600000"

definition getUTCMinutes :: "int \<Rightarrow> int" where
  "getUTCMinutes t = t mod 3600000 div 60000"

definition getUTCSeconds :: "int \<Rightarrow> int" where
  "getUTCSeconds t = t mod 60000 div 1000"

definition getUTCMilliseconds :: "int \<Rightarrow> int" where
  "getUTCMilliseconds t = t mod 1000"

section \<open>The host\<close>

text \<open>
  What the program asks of its platform and does not compute itself:
  \<^item> \<open>zoneOffset\<close>: the time-zone database behind \<^verbatim>\<open>Intl.DateTimeFormat\<close>. A zone
    identifier that resolves gives the zone's UTC offset, in seconds (the resolution of
    the IANA rules), in effect at a UTC instant given in milliseconds; an identifier
    that does not resolve gives \<open>None\<close>;
  \<^item> \<open>localToUtc\<close>: the host's own zone, as \<^verbatim>\<open>new Date(y, m, d, h, mi, s, ms)\<close> uses it:
    from a wall-clock reading of the host's zone (as a time value) to the UTC time value;
  \<^item> \<open>numberToString\<close>: the text of a number in a template literal.
\<close>

datatype jsnum = Finite rat | NaN | PosInf | NegInf

record host =
  zoneOffset :: "string \<Rightarrow> (int \<Rightarrow> int) option"
  localToUtc :: "int \<Rightarrow> int"
  numberToString :: "jsnum \<Rightarrow> string"

section \<open>Wall-clock fields in a zone (\<^verbatim>\<open>src/index.ts\<close>, lines 15-23 and 88-213)\<close>

record DateTimeParts =
  year :: int
  month :: int
  day :: int
  hour :: int
  minute :: int
  second :: int
  millisecond :: int

definition assertValidDate :: "jsdate \<Rightarrow> string \<Rightarrow> error + unit" where
  "assertValidDate date label =
     (case date of InvalidDate \<Rightarrow> Inl (Error (''Invalid '' @ label)) | Date _ \<Rightarrow> Inr ())"

definition assertValidTimeZone :: "host \<Rightarrow> string \<Rightarrow> error + unit" where
  "assertValidTimeZone h timeZone =
     (case zoneOffset h timeZone of
        None \<Rightarrow> Inl (Error (''Invalid time zone: '' @ timeZone))
      | Some _ \<Rightarrow> Inr ())"

text \<open>
  \<^verbatim>\<open>getTimeZoneParts\<close>. The formatter (\<^verbatim>\<open>en-CA\<close>, 24-hour clock with the hours 00 to 23,
  numeric year, two-digit month, day, hour, minute and second) prints the fields of the
  calendar date and time of day at \<open>t + offset\<close>, to the second; the source reads them
  back with \<^verbatim>\<open>Number\<close> and takes the milliseconds from the UTC instant. The year is
  printed without an era, so a year before 1 CE is printed as its year BCE. The
  formatter cache only saves building the formatter again; it does not change a
  result. With the fields printed as digits, the \<^verbatim>\<open>Number.isNaN\<close> check of the source
  never fires. An unknown zone makes the constructor of the formatter throw, an invalid
  date makes \<^verbatim>\<open>formatToParts\<close> throw.
\<close>

definition getTimeZoneParts :: "host \<Rightarrow> jsdate \<Rightarrow> string \<Rightarrow> error + DateTimeParts" where
  "getTimeZoneParts h date timeZone =
     (case zoneOffset h timeZone of
        None \<Rightarrow> Inl (RangeError (''Invalid time zone specified: '' @ timeZone))
      | Some off \<Rightarrow>
          (case date of
             InvalidDate \<Rightarrow> Inl (RangeError ''Invalid time value'')
           | Date t \<Rightarrow>
               (let ls = t div 1000 + off t;
                    ymd = civil_from_days (ls div 86400);
                    y = fst ymd;
                    sod = ls mod 86400
                in Inr \<lparr>year = (if 1 \<le> y then y else 1 - y),
                        month = fst (snd ymd),
                        day = snd (snd ymd),
                        hour = sod div 3600,
                        minute = sod mod 3600 div 60,
                        second = sod mod 60,
                        millisecond = getUTCMilliseconds t\<rparr>)))"

definition toUtcMillis :: "DateTimeParts \<Rightarrow> int option" where
  "toUtcMillis parts =
     Date_UTC (year parts) (month parts - 1) (day parts) (hour parts) (minute parts)
       (second parts) (millisecond parts)"

definition getTimeZoneOffsetMs :: "host \<Rightarrow> jsdate \<Rightarrow> string \<Rightarrow> error + int option" where
  "getTimeZoneOffsetMs h date timeZone =
     (case getTimeZoneParts h date timeZone of
        Inl e \<Rightarrow> Inl e
      | Inr zoned \<Rightarrow> Inr (num_minus (toUtcMillis zoned) (getTime date)))"

text \<open>
  The \<^verbatim>\<open>for\<close> loop of \<^verbatim>\<open>localDateTimeInZoneToUtc\<close>, from \<open>attempt\<close> on, with the current
  \<open>guess\<close>; \<open>Inr\<close> is the guess the loop leaves, by \<^verbatim>\<open>break\<close> or by \<open>attempt = 4\<close>.
\<close>

function toUtcLoop :: "host \<Rightarrow> string \<Rightarrow> int option \<Rightarrow> nat \<Rightarrow> int option \<Rightarrow> error + int option" where
  "toUtcLoop h timeZone localAsUtc attempt guess =
     (if attempt < 4 then
        (case getTimeZoneOffsetMs h (new_Date guess) timeZone of
           Inl e \<Rightarrow> Inl e
         | Inr offset \<Rightarrow>
             (let next = num_minus localAsUtc offset
              in if num_eq next guess then Inr guess
                 else toUtcLoop h timeZone localAsUtc (attempt + 1) next))
      else Inr guess)"
  by pat_completeness auto
termination
  by (relation "measure (\<lambda>(h, timeZone, localAsUtc, attempt, guess). 4 - attempt)") auto

declare toUtcLoop.simps [simp del]

definition localDateTimeInZoneToUtc :: "host \<Rightarrow> DateTimeParts \<Rightarrow> string \<Rightarrow> error + jsdate" where
  "localDateTimeInZoneToUtc h parts timeZone =
     (let localAsUtc = toUtcMillis parts
      in case toUtcLoop h timeZone localAsUtc 0 localAsUtc of
           Inl e \<Rightarrow> Inl e
         | Inr guess \<Rightarrow> Inr (new_Date guess))"

text \<open>
  \<^verbatim>\<open>replaceDateTimeZoneByUserTimeZone\<close> reads the UTC fields of the date as wall-clock
  fields of the zone. After \<open>assertValidDate\<close> the date is valid, so the case of the
  invalid date under it is never reached.
\<close>

definition replaceDateTimeZoneByUserTimeZone :: "host \<Rightarrow> jsdate \<Rightarrow> string \<Rightarrow> error + jsdate" where
  "replaceDateTimeZoneByUserTimeZone h date timeZone =
     (case assertValidDate date ''date'' of
        Inl e \<Rightarrow> Inl e
      | Inr _ \<Rightarrow>
          (case assertValidTimeZone h timeZone of
             Inl e \<Rightarrow> Inl e
           | Inr _ \<Rightarrow>
               (case date of
                  InvalidDate \<Rightarrow> Inl (Error ''Invalid date'')
                | Date t \<Rightarrow>
                    localDateTimeInZoneToUtc h
                      \<lparr>year = getUTCFullYear t,
                       month = getUTCMonth t + 1,
                       day = getUTCDate t,
                       hour = getUTCHours t,
                       minute = getUTCMinutes t,
                       second = getUTCSeconds t,
                       millisecond = getUTCMilliseconds t\<rparr>
                      timeZone)))"

subsection \<open>The iteration as the specification words it, and as amended\<close>

text \<open>
  The specification's steps: (1) the guess starts as the wall-clock fields read as UTC;
  (2) look up the zone's offset at the guess; (3) \<open>candidate = guess - offset\<close>; (4) if
  the candidate equals the guess, return it, otherwise the candidate is the new guess;
  at most 4 rounds. \<open>toUtcInstant_spec\<close> follows these words, with \<open>n\<close> the rounds left.
\<close>

fun spec_iteration :: "host \<Rightarrow> string \<Rightarrow> nat \<Rightarrow> int option \<Rightarrow> error + int option" where
  "spec_iteration h timeZone 0 guess = Inr guess"
| "spec_iteration h timeZone (Suc n) guess =
     (case getTimeZoneOffsetMs h (new_Date guess) timeZone of
        Inl e \<Rightarrow> Inl e
      | Inr offset \<Rightarrow>
          (let candidate = num_minus guess offset
           in if num_eq candidate guess then Inr guess
              else spec_iteration h timeZone n candidate))"

definition toUtcInstant_spec :: "host \<Rightarrow> DateTimeParts \<Rightarrow> string \<Rightarrow> error + jsdate" where
  "toUtcInstant_spec h parts timeZone =
     (case spec_iteration h timeZone 4 (toUtcMillis parts) of
        Inl e \<Rightarrow> Inl e
      | Inr guess \<Rightarrow> Inr (new_Date guess))"

text \<open>
  The amended steps differ in (3) only: the candidate is the first guess (the wall-clock
  fields read as UTC) minus the offset, in every round.
\<close>

fun amended_iteration :: "host \<Rightarrow> string \<Rightarrow> int option \<Rightarrow> nat \<Rightarrow> int option \<Rightarrow> error + int option" where
  "amended_iteration h timeZone first 0 guess = Inr guess"
| "amended_iteration h timeZone first (Suc n) guess =
     (case getTimeZoneOffsetMs h (new_Date guess) timeZone of
        Inl e \<Rightarrow> Inl e
      | Inr offset \<Rightarrow>
          (let candidate = num_minus first offset
           in if num_eq candidate guess then Inr guess
              else amended_iteration h timeZone first n candidate))"

definition toUtcInstant_amended :: "host \<Rightarrow> DateTimeParts \<Rightarrow> string \<Rightarrow> error + jsdate" where
  "toUtcInstant_amended h parts timeZone =
     (case amended_iteration h timeZone (toUtcMillis parts) 4 (toUtcMillis parts) of
        Inl e \<Rightarrow> Inl e
      | Inr guess \<Rightarrow> Inr (new_Date guess))"

subsection \<open>Sample zones\<close>

text \<open>
  For concrete runs: \<^verbatim>\<open>Asia/Manila\<close> at +08:00 throughout, \<^verbatim>\<open>UTC\<close> at +00:00, and
  \<^verbatim>\<open>America/New_York\<close> with its two transitions of 2024 (-05:00, then -04:00 from
  2024-03-10T07:00:00Z, then -05:00 again from 2024-11-03T06:00:00Z); no other
  identifier resolves.
\<close>

definition newYork2024 :: "int \<Rightarrow> int" where
  "newYork2024 t =
     (if 1710054000000 \<le> t \<and> t < 1730613600000 then - 14400 else - 18000)"

definition sampleZones :: "string \<Rightarrow> (int \<Rightarrow> int) option" where
  "sampleZones z =
     (if z = ''Asia/Manila'' then Some (\<lambda>t. 28800)
      else if z = ''UTC'' then Some (\<lambda>t. 0)
      else if z = ''America/New_York'' then Some newYork2024
      else None)"

section \<open>Cell values (\<^verbatim>\<open>src/index.ts\<close>, lines 215-348)\<close>

text \<open>
  What a cell of the workbook reader holds: \<^verbatim>\<open>null\<close> or \<^verbatim>\<open>undefined\<close>, a string, a
  number, a boolean, a \<^verbatim>\<open>Date\<close>, or one of the reader's objects: a hyperlink
  \<^verbatim>\<open>{text, hyperlink}\<close>, rich text \<^verbatim>\<open>{richText: [{text}, ...]}\<close> (a part with no string
  \<open>text\<close> is \<open>None\<close>), a formula \<^verbatim>\<open>{formula, result}\<close> (\<open>None\<close>: the object has no
  \<^verbatim>\<open>result\<close> key; \<open>Some Null\<close>: the key holds \<^verbatim>\<open>null\<close> or \<^verbatim>\<open>undefined\<close>), an error
  \<^verbatim>\<open>{error}\<close>. \<open>Array\<close> is a JavaScript array, as \<^verbatim>\<open>maybeConvertToArray\<close> returns it.
  The arithmetic on \<open>Finite\<close> numbers is exact: the rounding of doubles is not modelled.
\<close>

datatype cellvalue =
    Null
  | Text string
  | Number jsnum
  | Boolean bool
  | DateValue jsdate
  | Hyperlink string string
  | RichText "string option list"
  | Formula string "cellvalue option"
  | ErrorValue string
  | Array "cellvalue list"

record Cell =
  cellValue :: cellvalue
  numFmt :: "string option"

record Row =
  rowNumber :: nat
  cells :: "Cell list"

record Worksheet =
  worksheetName :: "string option"
  worksheetRows :: "Row list"

text \<open>
  A row of the reader has its cells at columns 1, 2, ...: \<^verbatim>\<open>row.values\<close> is the array of
  their values with an unused slot 0, and \<^verbatim>\<open>row.getCell(k)\<close> is the cell of column \<open>k\<close>,
  an empty cell (value \<^verbatim>\<open>null\<close>, no number format) beyond the last one. The array is
  taken without holes: a cell that holds nothing has the value \<^verbatim>\<open>null\<close>.
\<close>

definition getRowValues :: "Row \<Rightarrow> cellvalue list" where
  "getRowValues row = map cellValue (cells row)"

definition getCell :: "Row \<Rightarrow> nat \<Rightarrow> Cell" where
  "getCell row k =
     (if 1 \<le> k \<and> k \<le> length (cells row) then cells row ! (k - 1)
      else \<lparr>cellValue = Null, numFmt = None\<rparr>)"

definition isEmptyRow :: "cellvalue list \<Rightarrow> bool" where
  "isEmptyRow vs = list_all (\<lambda>v. v = Null \<or> v = Text []) vs"

text \<open>An optional string option is taken (\<^verbatim>\<open>if (timeZone)\<close>) when present and not empty.\<close>

fun truthy :: "string option \<Rightarrow> bool" where
  "truthy None = False"
| "truthy (Some s) = (s \<noteq> [])"

text \<open>
  \<^verbatim>\<open>new Date(number)\<close>: not finite or beyond 8.64e15 ms is the invalid date; otherwise the
  number is cut to an integer, towards zero.
\<close>

definition truncToInt :: "rat \<Rightarrow> int" where
  "truncToInt x = (if 0 \<le> x then \<lfloor>x\<rfloor> else \<lceil>x\<rceil>)"

fun new_Date_number :: "jsnum \<Rightarrow> jsdate" where
  "new_Date_number (Finite x) =
     (if \<bar>x\<bar> > 8640000000000000 then InvalidDate else Date (truncToInt x))"
| "new_Date_number _ = InvalidDate"

text \<open>\<open>epoch + serial * msPerDay\<close>, for a finite \<open>epoch\<close>.\<close>

fun serialTime :: "int \<Rightarrow> jsnum \<Rightarrow> jsnum" where
  "serialTime epoch (Finite serial) = Finite (of_int epoch + serial * of_int msPerDay)"
| "serialTime epoch other = other"

definition excelSerialToDate :: "jsnum \<Rightarrow> bool \<Rightarrow> jsdate" where
  "excelSerialToDate serial date1904 =
     (case (if date1904 then Date_UTC 1904 0 1 0 0 0 0 else Date_UTC 1899 11 30 0 0 0 0) of
        None \<Rightarrow> InvalidDate
      | Some epoch \<Rightarrow> new_Date_number (serialTime epoch serial))"

definition reinterpretDateToTimeZone :: "host \<Rightarrow> jsdate \<Rightarrow> string \<Rightarrow> error + jsdate" where
  "reinterpretDateToTimeZone h date timeZone = replaceDateTimeZoneByUserTimeZone h date timeZone"



text \<open>The test \<^verbatim>\<open>/[dmyhs]/i\<close> on a number format.\<close>

definition hasDateLetter :: "string \<Rightarrow> bool" where
  "hasDateLetter fmt = list_ex (\<lambda>c. c \<in> set ''dmyhsDMYHS'') fmt"

fun normalizeCellValue :: "host \<Rightarrow> Cell \<Rightarrow> bool \<Rightarrow> bool \<Rightarrow> string option \<Rightarrow> error + cellvalue" where
  "normalizeCellValue h cell parseDates date1904 timeZone =
     (case cellValue cell of
        Null \<Rightarrow> Inr Null
      | DateValue d \<Rightarrow>
          (if truthy timeZone
           then (case reinterpretDateToTimeZone h d (the timeZone) of
                   Inl e \<Rightarrow> Inl e
                 | Inr d' \<Rightarrow> Inr (DateValue d'))
           else Inr (DateValue d))
      | Formula f (Some result) \<Rightarrow> Inr result
      | Number n \<Rightarrow>
          (if parseDates \<and> (case numFmt cell of None \<Rightarrow> False | Some fmt \<Rightarrow> hasDateLetter fmt)
           then (let date = excelSerialToDate n date1904
                 in if truthy timeZone
                    then (case reinterpretDateToTimeZone h date (the timeZone) of
                            Inl e \<Rightarrow> Inl e
                          | Inr d' \<Rightarrow> Inr (DateValue d'))
                    else Inr (DateValue date))
           else Inr (Number n))
      | v \<Rightarrow> Inr v)"

text \<open>
  \<^verbatim>\<open>String.prototype.trim\<close> removes white space and line terminators at both ends; of
  these, the characters of a \<open>string\<close> here are the ASCII ones.
\<close>

definition isWhiteSpace :: "char \<Rightarrow> bool" where
  "isWhiteSpace c = (c \<in> set [CHR 0x20, CHR 0x09, CHR 0x0A, CHR 0x0B, CHR 0x0C, CHR 0x0D])"

definition trim :: "string \<Rightarrow> string" where
  "trim s = rev (dropWhile isWhiteSpace (rev (dropWhile isWhiteSpace s)))"

fun maybeTrimTextValue :: "cellvalue \<Rightarrow> bool \<Rightarrow> cellvalue" where
  "maybeTrimTextValue (Text s) trimTextValues = (if trimTextValues then Text (trim s) else Text s)"
| "maybeTrimTextValue v trimTextValues = v"

definition shouldTrimColumn :: "bool \<Rightarrow> string list \<Rightarrow> string \<Rightarrow> bool" where
  "shouldTrimColumn trimTextValues trimTextColumns columnName =
     (if trimTextValues then True else columnName \<in> set trimTextColumns)"

text \<open>
  \<^verbatim>\<open>value.split(delimiter)\<close> on a string that is not empty: with the empty delimiter,
  one item per character; otherwise the pieces between the occurrences of the
  delimiter, found from left to right. \<open>cur\<close> is the piece being read, reversed.
\<close>

function splitFrom :: "string \<Rightarrow> string \<Rightarrow> string \<Rightarrow> string list" where
  "splitFrom delimiter cur [] = [rev cur]"
| "splitFrom delimiter cur (c # cs) =
     (if delimiter \<noteq> [] \<and> take (length delimiter) (c # cs) = delimiter
      then rev cur # splitFrom delimiter [] (drop (length delimiter) (c # cs))
      else splitFrom delimiter (c # cur) cs)"
  by pat_completeness auto
termination
  by (relation "measure (\<lambda>(delimiter, cur, s). length s)") auto

definition split :: "string \<Rightarrow> string \<Rightarrow> string list" where
  "split s delimiter = (if delimiter = [] then map (\<lambda>c. [c]) s else splitFrom delimiter [] s)"

fun maybeConvertToArray :: "cellvalue \<Rightarrow> bool \<Rightarrow> string \<Rightarrow> bool \<Rightarrow> bool \<Rightarrow> cellvalue" where
  "maybeConvertToArray v shouldConvert delimiter trimItems removeEmpty =
     (if \<not> shouldConvert then v
      else if v = Null \<or> v = Text [] then Array []
      else (case v of
              Array xs \<Rightarrow> v
            | Text s \<Rightarrow>
                (let items = split s delimiter;
                     items = (if trimItems then map trim items else items);
                     items = (if removeEmpty then filter (\<lambda>item. length item > 0) items else items)
                 in Array (map Text items))
            | _ \<Rightarrow> Array [v]))"

section \<open>Row objects and the write side's helpers (\<^verbatim>\<open>src/index.ts\<close>, lines 350-446)\<close>

text \<open>
  A row object is the list of its own keys and values, in the order in which
  \<^verbatim>\<open>Object.keys\<close> and \<^verbatim>\<open>Object.entries\<close> give them. The assignment
  \<^verbatim>\<open>obj[columnName] = v\<close> is \<open>AList.update\<close>: a key already there keeps its place and
  takes the new value, a new key goes to the end. Two things the engine does with
  particular keys are outside this model: it lists keys that are array indices first,
  and an assignment to \<^verbatim>\<open>__proto__\<close> stores no key.
\<close>

type_synonym RowObject = "(string \<times> cellvalue) list"






text \<open>Decimal digits, for \<^verbatim>\<open>column_${index + 1}\<close> and for \<^verbatim>\<open>toISOString\<close>.\<close>

function digits :: "nat \<Rightarrow> string" where
  "digits n = (if n < 10 then [''0123456789'' ! n] else digits (n div 10) @ [''0123456789'' ! (n mod 10)])"
  by pat_completeness auto
termination
  by (relation "measure (\<lambda>n. n)") auto

declare digits.simps [simp del]

definition pad :: "nat \<Rightarrow> nat \<Rightarrow> string" where
  "pad w n = replicate (w - length (digits n)) CHR ''0'' @ digits n"

text \<open>
  \<^verbatim>\<open>toISOString\<close>: four digits for a year from 0 to 9999, a sign and six digits for any
  other; a \<^verbatim>\<open>RangeError\<close> on the invalid date.
\<close>

definition toISOString :: "jsdate \<Rightarrow> error + string" where
  "toISOString date =
     (case date of
        InvalidDate \<Rightarrow> Inl (RangeError ''Invalid time value'')
      | Date t \<Rightarrow>
          (let y = getUTCFullYear t;
               ys = (if 0 \<le> y \<and> y \<le> 9999 then pad 4 (nat y)
                     else (if y < 0 then ''-'' else ''+'') @ pad 6 (nat \<bar>y\<bar>))
           in Inr (ys @ ''-'' @ pad 2 (nat (getUTCMonth t + 1)) @ ''-'' @ pad 2 (nat (getUTCDate t))
                   @ ''T'' @ pad 2 (nat (getUTCHours t)) @ '':'' @ pad 2 (nat (getUTCMinutes t))
                   @ '':'' @ pad 2 (nat (getUTCSeconds t)) @ ''.''
                   @ pad 3 (nat (getUTCMilliseconds t)) @ ''Z'')))"

fun headerValueToString :: "host \<Rightarrow> cellvalue \<Rightarrow> error + string" where
  "headerValueToString h Null = Inr []"
| "headerValueToString h (Text s) = Inr s"
| "headerValueToString h (Number n) = Inr (numberToString h n)"
| "headerValueToString h (Boolean b) = Inr (if b then ''true'' else ''false'')"
| "headerValueToString h (DateValue d) = toISOString d"
| "headerValueToString h (Hyperlink t link) = Inr t"
| "headerValueToString h (RichText parts) =
     Inr (concat (map (\<lambda>part. case part of Some t \<Rightarrow> t | None \<Rightarrow> []) parts))"
| "headerValueToString h (Formula f (Some result)) = headerValueToString h result"
| "headerValueToString h (Formula f None) = Inr []"
| "headerValueToString h (ErrorValue e) = Inr []"
| "headerValueToString h (Array xs) = Inr []"

section \<open>Reading: \<^verbatim>\<open>xlsxToObjects\<close> (\<^verbatim>\<open>src/index.ts\<close>, lines 25-42 and 448-550)\<close>

text \<open>
  An option that the caller may leave out is an \<open>option\<close>; \<open>orDefault\<close> is the default of
  the destructuring. \<^verbatim>\<open>sharedStringsMode\<close> and \<^verbatim>\<open>stylesMode\<close> only configure the
  workbook reader, whose output is the input of this model, and are left out.
\<close>

record XlsxReadOptions =
  sheetName :: "string option"
  headerRowNumber :: "int option"
  trimHeaders :: "bool option"
  trimTextValues :: "bool option"
  trimTextColumns :: "string list option"
  arrayColumns :: "string list option"
  arrayDelimiter :: "string option"
  trimArrayItems :: "bool option"
  removeEmptyArrayItems :: "bool option"
  skipEmptyRows :: "bool option"
  normalizeHeader :: "(string \<Rightarrow> nat \<Rightarrow> string) option"
  parseDates :: "bool option"
  date1904 :: "bool option"
  timeZone :: "string option"

fun orDefault :: "'a option \<Rightarrow> 'a \<Rightarrow> 'a" where
  "orDefault None d = d"
| "orDefault (Some x) d = x"

text \<open>
  The header row: \<^verbatim>\<open>values.map((value, index) => ...)\<close>, from \<open>index\<close> on. A header that
  is empty after trimming and renaming becomes \<^verbatim>\<open>column_<index + 1>\<close>.
\<close>

fun resolveHeaders :: "host \<Rightarrow> 'a XlsxReadOptions_scheme \<Rightarrow> nat \<Rightarrow> cellvalue list \<Rightarrow> error + string list" where
  "resolveHeaders h opts index [] = Inr []"
| "resolveHeaders h opts index (v # vs) =
     (case headerValueToString h v of
        Inl e \<Rightarrow> Inl e
      | Inr s \<Rightarrow>
          (let s1 = (if orDefault (trimHeaders opts) True then trim s else s);
               s2 = (case normalizeHeader opts of None \<Rightarrow> s1 | Some f \<Rightarrow> f s1 index);
               name = (if s2 = [] then ''column_'' @ digits (index + 1) else s2)
           in case resolveHeaders h opts (index + 1) vs of
                Inl e \<Rightarrow> Inl e
              | Inr names \<Rightarrow> Inr (name # names)))"

text \<open>
  The loop \<^verbatim>\<open>for (let i = 0; i < headers.length; i += 1)\<close> that fills the row object,
  from \<open>i\<close> on, with \<open>obj\<close> the object so far.
\<close>

function fillObject :: "host \<Rightarrow> 'a XlsxReadOptions_scheme \<Rightarrow> string list \<Rightarrow> Row \<Rightarrow> nat \<Rightarrow> RowObject \<Rightarrow> error + RowObject" where
  "fillObject h opts headers row i obj =
     (if i < length headers then
        (let columnName = headers ! i;
             cell = getCell row (i + 1)
         in case normalizeCellValue h cell (orDefault (parseDates opts) True)
                   (orDefault (date1904 opts) False) (timeZone opts) of
              Inl e \<Rightarrow> Inl e
            | Inr normalizedValue \<Rightarrow>
                (let trimmedValue = maybeTrimTextValue normalizedValue
                       (shouldTrimColumn (orDefault (trimTextValues opts) False)
                          (orDefault (trimTextColumns opts) []) columnName)
                 in fillObject h opts headers row (i + 1)
                      (AList.update columnName
                         (maybeConvertToArray trimmedValue
                            (columnName \<in> set (orDefault (arrayColumns opts) []))
                            (orDefault (arrayDelimiter opts) '','')
                            (orDefault (trimArrayItems opts) True)
                            (orDefault (removeEmptyArrayItems opts) True))
                         obj)))
      else Inr obj)"
  by pat_completeness auto
termination
  by (relation "measure (\<lambda>(h, opts, headers, row, i, obj). length headers - i)") auto

declare fillObject.simps [simp del]



text \<open>
  A generator's run is the list of the values it yields and how it ends: \<open>None\<close> when it
  returns, \<open>Some e\<close> when it throws \<open>e\<close> in place of a next value.

  The loop over the rows of one worksheet, with the current \<open>headers\<close> (\<open>None\<close> for
  \<^verbatim>\<open>null\<close>).
\<close>

fun rowLoop :: "host \<Rightarrow> 'a XlsxReadOptions_scheme \<Rightarrow> string list option \<Rightarrow> Row list \<Rightarrow> RowObject list \<times> error option" where
  "rowLoop h opts headers [] = ([], None)"
| "rowLoop h opts headers (row # rest) =
     (let vs = getRowValues row
      in if orDefault (skipEmptyRows opts) True \<and> isEmptyRow vs
         then rowLoop h opts headers rest
         else if int (rowNumber row) = orDefault (headerRowNumber opts) 1
         then (case resolveHeaders h opts 0 vs of
                 Inl e \<Rightarrow> ([], Some e)
               | Inr names \<Rightarrow> rowLoop h opts (Some names) rest)
         else (case headers of
                 None \<Rightarrow> rowLoop h opts headers rest
               | Some names \<Rightarrow>
                   (case fillObject h opts names row 0 [] of
                      Inl e \<Rightarrow> ([], Some e)
                    | Inr obj \<Rightarrow>
                        (obj # fst (rowLoop h opts headers rest),
                         snd (rowLoop h opts headers rest)))))"

text \<open>The loop over the worksheets of the workbook.\<close>

fun sheetLoop :: "host \<Rightarrow> 'a XlsxReadOptions_scheme \<Rightarrow> Worksheet list \<Rightarrow> RowObject list \<times> error option" where
  "sheetLoop h opts [] = ([], None)"
| "sheetLoop h opts (worksheet # rest) =
     (if truthy (sheetName opts) \<and> worksheetName worksheet \<noteq> sheetName opts
      then sheetLoop h opts rest
      else (case rowLoop h opts None (worksheetRows worksheet) of
              (out, Some e) \<Rightarrow> (out, Some e)
            | (out, None) \<Rightarrow>
                (out @ fst (sheetLoop h opts rest), snd (sheetLoop h opts rest))))"

definition xlsxToObjects :: "host \<Rightarrow> Worksheet list \<Rightarrow> 'a XlsxReadOptions_scheme \<Rightarrow> RowObject list \<times> error option" where
  "xlsxToObjects h input opts =
     (if truthy (timeZone opts)
      then (case assertValidTimeZone h (the (timeZone opts)) of
              Inl e \<Rightarrow> ([], Some e)
            | Inr _ \<Rightarrow> sheetLoop h opts input)
      else sheetLoop h opts input)"

section \<open>Writing: \<^verbatim>\<open>objectsToXlsx\<close> (\<^verbatim>\<open>src/index.ts\<close>, lines 44-57 and 552-621)\<close>







section \<open>Batches: \<^verbatim>\<open>processXlsxLarge\<close> (\<^verbatim>\<open>src/index.ts\<close>, lines 59-62 and 623-670)\<close>

record ProcessLargeOptions = XlsxReadOptions +
  batchSize :: "rat option"
  concurrency :: "rat option"

text \<open>
  The function runs on one thread, in jobs: a stretch of synchronous code runs to its
  next \<^verbatim>\<open>await\<close> without interruption, and promise reactions run between such
  stretches. The model is a machine whose steps are these jobs.

  A handler invocation is created by \<^verbatim>\<open>Promise.resolve().then(() => handler(item))\<close>:
  it is \<open>Queued\<close> until the engine runs that callback, \<open>Running\<close> from the call of the
  handler until the handler's result is in, then \<open>Settled\<close> with the outcome, which
  settles the promise \<open>promise\<close> of the source. What the handler does with an item is
  its outcome; when it starts and when it ends is up to the schedule. The promise's
  reactions are the \<^verbatim>\<open>finally\<close> callback, registered first, which deletes the promise
  from \<open>inFlight\<close>, and those of the \<^verbatim>\<open>Promise.race\<close> or \<^verbatim>\<open>Promise.all\<close> that waits on it;
  they run back to back, as one step.
\<close>

datatype outcome = Fulfilled | Rejected error

datatype status = Queued | Running | Settled outcome

text \<open>
  Where the function stands: at the \<^verbatim>\<open>for await\<close> over the rows (\<open>Reading\<close>); in the
  synchronous \<^verbatim>\<open>for\<close> loop of \<^verbatim>\<open>runBatch\<close> (\<open>Launching\<close>); at
  \<^verbatim>\<open>await Promise.race(inFlight)\<close> (\<open>AwaitRace\<close>), or past it with the race fulfilled and
  the loop not yet resumed (\<open>RaceWon\<close>); at \<^verbatim>\<open>await Promise.all(inFlight)\<close> (\<open>AwaitAll\<close>);
  or with its promise settled (\<open>Finished\<close>, with the error if it rejected).
\<close>

datatype phase = Reading | Launching | AwaitRace | RaceWon | AwaitAll | Finished "error option"

text \<open>
  \<open>source\<close> and \<open>sourceEnd\<close> are the rest of the reader's run; \<open>batch\<close> is the variable of
  the source; \<open>todo\<close> are the items of the current \<^verbatim>\<open>runBatch\<close> that its loop has not
  reached; \<open>lastWindow\<close> tells the call of \<^verbatim>\<open>runBatch\<close> after the reading loop from the
  one inside it; \<open>invocations\<close> are all the invocations created so far, each with its
  item, a promise being named by its index; \<open>inFlight\<close> is the set of the current
  \<^verbatim>\<open>runBatch\<close>, in insertion order.
\<close>

record 'r pstate =
  source :: "'r list"
  sourceEnd :: "error option"
  batch :: "'r list"
  todo :: "'r list"
  lastWindow :: bool
  invocations :: "('r \<times> status) list"
  inFlight :: "nat list"
  phase :: phase

datatype event = Next | Launch | Start nat | Finish nat | React nat | Resume

text \<open>The validation at the head of the function, before the reader is touched.\<close>

definition initialState :: "rat \<Rightarrow> rat \<Rightarrow> 'r list \<times> error option \<Rightarrow> 'r pstate" where
  "initialState bs c run =
     \<lparr>source = fst run, sourceEnd = snd run, batch = [], todo = [], lastWindow = False,
      invocations = [], inFlight = [],
      phase = (if bs \<le> 0 then Finished (Some (Error ''batchSize must be > 0''))
               else if c \<le> 0 then Finished (Some (Error ''concurrency must be > 0''))
               else Reading)\<rparr>"

text \<open>\<^verbatim>\<open>runBatch\<close> returns: back to the reading loop, or to the end of the function.\<close>

definition windowDone :: "'r pstate \<Rightarrow> 'r pstate" where
  "windowDone s = (if lastWindow s then s\<lparr>phase := Finished None\<rparr>
                   else s\<lparr>batch := [], phase := Reading\<rparr>)"

text \<open>
  One job. \<open>None\<close>: the event cannot happen in this state.
  \<^item> \<open>Next\<close>: the reading loop takes the next row, or sees the reader end;
  \<^item> \<open>Launch\<close>: the loop of \<^verbatim>\<open>runBatch\<close> launches its next item and tests
    \<^verbatim>\<open>inFlight.size >= concurrency\<close>, or is over and calls \<^verbatim>\<open>Promise.all\<close>;
  \<^item> \<open>Start i\<close>, \<open>Finish i\<close>: the handler of invocation \<open>i\<close> is called; its result is in;
  \<^item> \<open>React i\<close>: the reactions of the settled promise \<open>i\<close> run;
  \<^item> \<open>Resume\<close>: the loop of \<^verbatim>\<open>runBatch\<close> goes on after a race that fulfilled.
\<close>

fun exec :: "('r \<Rightarrow> outcome) \<Rightarrow> rat \<Rightarrow> rat \<Rightarrow> event \<Rightarrow> 'r pstate \<Rightarrow> 'r pstate option" where
  "exec handler bs c Next s =
     (if phase s \<noteq> Reading then None
      else (case source s of
              row # rest \<Rightarrow>
                (let batch' = batch s @ [row]
                 in if of_nat (length batch') \<ge> bs
                    then Some (s\<lparr>source := rest, batch := batch', todo := batch', inFlight := [],
                                 lastWindow := False, phase := Launching\<rparr>)
                    else Some (s\<lparr>source := rest, batch := batch'\<rparr>))
            | [] \<Rightarrow>
                (case sourceEnd s of
                   Some e \<Rightarrow> Some (s\<lparr>phase := Finished (Some e)\<rparr>)
                 | None \<Rightarrow>
                     (if length (batch s) > 0
                      then Some (s\<lparr>todo := batch s, inFlight := [], lastWindow := True,
                                   phase := Launching\<rparr>)
                      else Some (s\<lparr>phase := Finished None\<rparr>)))))"
| "exec handler bs c Launch s =
     (if phase s \<noteq> Launching then None
      else (case todo s of
              item # rest \<Rightarrow>
                (let inFlight' = inFlight s @ [length (invocations s)]
                 in Some (s\<lparr>todo := rest,
                            invocations := invocations s @ [(item, Queued)],
                            inFlight := inFlight',
                            phase := (if of_nat (length inFlight') \<ge> c then AwaitRace
                                      else Launching)\<rparr>))
            | [] \<Rightarrow> Some (if inFlight s = [] then windowDone s else s\<lparr>phase := AwaitAll\<rparr>)))"
| "exec handler bs c (Start i) s =
     (if phase s = Launching \<or> i \<ge> length (invocations s) then None
      else (case invocations s ! i of
              (item, Queued) \<Rightarrow> Some (s\<lparr>invocations := (invocations s)[i := (item, Running)]\<rparr>)
            | _ \<Rightarrow> None))"
| "exec handler bs c (Finish i) s =
     (if phase s = Launching \<or> i \<ge> length (invocations s) then None
      else (case invocations s ! i of
              (item, Running) \<Rightarrow>
                Some (s\<lparr>invocations := (invocations s)[i := (item, Settled (handler item))]\<rparr>)
            | _ \<Rightarrow> None))"
| "exec handler bs c (React i) s =
     (if phase s = Launching \<or> i \<ge> length (invocations s) \<or> i \<notin> set (inFlight s) then None
      else (case invocations s ! i of
              (item, Settled result) \<Rightarrow>
                (let s1 = s\<lparr>inFlight := removeAll i (inFlight s)\<rparr>
                 in Some (case phase s of
                            AwaitRace \<Rightarrow>
                              (case result of
                                 Fulfilled \<Rightarrow> s1\<lparr>phase := RaceWon\<rparr>
                               | Rejected e \<Rightarrow> s1\<lparr>phase := Finished (Some e)\<rparr>)
                          | AwaitAll \<Rightarrow>
                              (case result of
                                 Fulfilled \<Rightarrow> (if inFlight s1 = [] then windowDone s1 else s1)
                               | Rejected e \<Rightarrow> s1\<lparr>phase := Finished (Some e)\<rparr>)
                          | _ \<Rightarrow> s1))
            | _ \<Rightarrow> None))"
| "exec handler bs c Resume s =
     (if phase s = RaceWon then Some (s\<lparr>phase := Launching\<rparr>) else None)"

text \<open>A schedule is a list of events; \<open>run\<close> is the state after it, if every event could happen.\<close>

fun run :: "('r \<Rightarrow> outcome) \<Rightarrow> rat \<Rightarrow> rat \<Rightarrow> event list \<Rightarrow> 'r pstate \<Rightarrow> 'r pstate option" where
  "run handler bs c [] s = Some s"
| "run handler bs c (e # es) s =
     (case exec handler bs c e s of None \<Rightarrow> None | Some s' \<Rightarrow> run handler bs c es s')"

text \<open>
  \<^verbatim>\<open>processXlsxLarge\<close>: the state in which the call leaves the function, from which the
  schedule goes on. The reader is a generator, so none of its rows is computed before
  the first \<open>Next\<close>.
\<close>

definition processXlsxLarge :: "host \<Rightarrow> Worksheet list \<Rightarrow> 'a ProcessLargeOptions_scheme \<Rightarrow> RowObject pstate" where
  "processXlsxLarge h input opts =
     initialState (orDefault (batchSize opts) 2000) (orDefault (concurrency opts) 8)
       (xlsxToObjects h input opts)"

definition reachable :: "('r \<Rightarrow> outcome) \<Rightarrow> rat \<Rightarrow> rat \<Rightarrow> 'r pstate \<Rightarrow> 'r pstate \<Rightarrow> bool" where
  "reachable handler bs c s0 s = (\<exists>es. run handler bs c es s0 = Some s)"

text \<open>The invocations whose handler has been called and has not given its result.\<close>

definition running :: "'r pstate \<Rightarrow> nat set" where
  "running s = {i. i < length (invocations s) \<and> snd (invocations s ! i) = Running}"

text \<open>
  What the schedule keeps true, for a concurrency \<open>c\<close>: \<open>inFlight\<close> lists promises that
  exist, each once; an invocation that is not settled is in \<open>inFlight\<close>; \<open>inFlight\<close> is
  empty while the function reads; its size stays below \<open>c + 1\<close>, and below \<open>c\<close> whenever the
  loop of \<^verbatim>\<open>runBatch\<close> is about to launch.
\<close>

definition admissionInvariant :: "rat \<Rightarrow> 'r pstate \<Rightarrow> bool" where
  "admissionInvariant c s =
     (distinct (inFlight s)
      \<and> (\<forall>i \<in> set (inFlight s). i < length (invocations s))
      \<and> (\<forall>i < length (invocations s).
            (\<exists>result. snd (invocations s ! i) = Settled result) \<or> i \<in> set (inFlight s))
      \<and> (phase s = Reading \<longrightarrow> inFlight s = [])
      \<and> of_nat (length (inFlight s)) < c + 1
      \<and> (phase s = Launching \<or> phase s = RaceWon \<longrightarrow> of_nat (length (inFlight s)) < c))"

section \<open>Sample data\<close>

text \<open>
  A host for concrete runs: the sample zones; the host's own zone is UTC; a number
  prints as the decimal digits of its integer part (which is right for the integers).
\<close>

definition sampleNumberToString :: "jsnum \<Rightarrow> string" where
  "sampleNumberToString n =
     (case n of
        Finite x \<Rightarrow> (if x < 0 then ''-'' else []) @ digits (nat \<bar>truncToInt x\<bar>)
      | NaN \<Rightarrow> ''NaN''
      | PosInf \<Rightarrow> ''Infinity''
      | NegInf \<Rightarrow> ''-Infinity'')"

definition sampleHost :: host where
  "sampleHost =
     \<lparr>zoneOffset = sampleZones, localToUtc = (\<lambda>t. t), numberToString = sampleNumberToString\<rparr>"

text \<open>
  A worksheet: a header row in which the name \<^verbatim>\<open>id\<close> stands twice, a row with a cell
  beyond the header, a row of empty cells, and a last row.
\<close>

definition sampleSheet :: Worksheet where
  "sampleSheet =
     \<lparr>worksheetName = Some ''Sheet1'',
      worksheetRows =
        [\<lparr>rowNumber = 1,
          cells = [\<lparr>cellValue = Text ''id'', numFmt = None\<rparr>,
                   \<lparr>cellValue = Text ''name'', numFmt = None\<rparr>,
                   \<lparr>cellValue = Text ''id'', numFmt = None\<rparr>]\<rparr>,
         \<lparr>rowNumber = 2,
          cells = [\<lparr>cellValue = Number (Finite 1), numFmt = None\<rparr>,
                   \<lparr>cellValue = Text ''Ann'', numFmt = None\<rparr>,
                   \<lparr>cellValue = Number (Finite 7), numFmt = None\<rparr>,
                   \<lparr>cellValue = Text ''beyond'', numFmt = None\<rparr>]\<rparr>,
         \<lparr>rowNumber = 3,
          cells = [\<lparr>cellValue = Text [], numFmt = None\<rparr>,
                   \<lparr>cellValue = Null, numFmt = None\<rparr>,
                   \<lparr>cellValue = Text [], numFmt = None\<rparr>]\<rparr>,
         \<lparr>rowNumber = 4,
          cells = [\<lparr>cellValue = Number (Finite 2), numFmt = None\<rparr>,
                   \<lparr>cellValue = Text ''Bob'', numFmt = None\<rparr>]\<rparr>]\<rparr>"


definition noProcessOptions :: ProcessLargeOptions where
  "noProcessOptions =
     \<lparr>sheetName = None, headerRowNumber = None, trimHeaders = None, trimTextValues = None,
      trimTextColumns = None, arrayColumns = None, arrayDelimiter = None,
      trimArrayItems = None, removeEmptyArrayItems = None, skipEmptyRows = None,
      normalizeHeader = None, parseDates = None, date1904 = None, timeZone = None,
      batchSize = None, concurrency = None\<rparr>"

text \<open>A handler that fails on the row 2 and succeeds on any other.\<close>

definition failsOnTwo :: "nat \<Rightarrow> outcome" where
  "failsOnTwo row = (if row = 2 then Rejected (Error ''no 2'') else Fulfilled)"

section \<open>The calendar: a day number and its date\<close>














section \<open>Wall-clock fields and back\<close>



text \<open>The loop of the source, from any attempt on, is the amended iteration with the rounds left.\<close>

lemma toUtcLoop_amended:
  "attempt \<le> 4 \<Longrightarrow>
   toUtcLoop h tz first attempt guess = amended_iteration h tz first (4 - attempt) guess"
proof (induction h tz first attempt guess rule: toUtcLoop.induct)
  case (1 h tz first attempt guess)
  show ?case
  proof (cases "attempt < 4")
    case False
    with "1.prems" have "attempt = 4" by simp
    then show ?thesis by (simp add: toUtcLoop.simps[of h tz first 4 guess])
  next
    case True
    then obtain n where n: "4 - attempt = Suc n" "4 - (attempt + 1) = n"
      by (cases "4 - attempt") auto
    show ?thesis
    proof (cases "getTimeZoneOffsetMs h (new_Date guess) tz")
      case (Inl e)
      then show ?thesis using True n by (simp add: toUtcLoop.simps[of h tz first attempt guess])
    next
      case (Inr offset)
      show ?thesis
      proof (cases "num_eq (num_minus first offset) guess")
        case eq: True
        then show ?thesis using True n Inr
          by (simp add: toUtcLoop.simps[of h tz first attempt guess])
      next
        case ne: False
        have "toUtcLoop h tz first (attempt + 1) (num_minus first offset)
            = amended_iteration h tz first (4 - (attempt + 1)) (num_minus first offset)"
          using "1.IH"[OF True Inr refl ne] True by simp
        then show ?thesis using True n Inr ne
          by (simp add: toUtcLoop.simps[of h tz first attempt guess])
      qed
    qed
  qed
qed

text \<open>
  C1 (as the specification words it). The claim: \<open>localDateTimeInZoneToUtc\<close> computes its
  result by the iteration in which each round's candidate is the current guess minus
  the offset at the guess. At 2024-01-01 00:00:00.000 in \<^verbatim>\<open>Asia/Manila\<close> (+08:00
  throughout) the source returns 2023-12-31T16:00:00Z, and the iteration of the claim
  returns 2023-12-30T16:00:00Z: it takes eight hours off in each of its four rounds.
\<close>

theorem localDateTimeInZoneToUtc_spec_counterexample:
  "localDateTimeInZoneToUtc sampleHost
     \<lparr>year = 2024, month = 1, day = 1, hour = 0, minute = 0, second = 0, millisecond = 0\<rparr>
     ''Asia/Manila'' = Inr (Date 1704038400000)
   \<and> toUtcInstant_spec sampleHost
     \<lparr>year = 2024, month = 1, day = 1, hour = 0, minute = 0, second = 0, millisecond = 0\<rparr>
     ''Asia/Manila'' = Inr (Date 1703952000000)"
  by code_simp

text \<open>
  C1 (amended). For every wall-clock fields input and every zone, resolvable or not,
  \<open>localDateTimeInZoneToUtc\<close> computes its result by this iteration: the guess starts as
  the wall-clock fields read as UTC; each round looks up the zone's offset at the guess
  and takes as candidate the first guess (not the current one) minus that offset; if
  the candidate equals the guess the guess is returned, otherwise the candidate is the
  new guess; after at most 4 rounds the guess is returned. The function is total: it
  returns a date or the error of a lookup.
\<close>

theorem localDateTimeInZoneToUtc_amended:
  "localDateTimeInZoneToUtc h parts tz = toUtcInstant_amended h parts tz"
  by (simp add: localDateTimeInZoneToUtc_def toUtcInstant_amended_def toUtcLoop_amended Let_def)




text \<open>
  Two runs outside the amended C2. An instant of the year 50 in \<^verbatim>\<open>UTC\<close>: \<^verbatim>\<open>Date.UTC\<close>
  reads the year 50 of the fields as 1950. An instant half an hour after New York's
  return to -05:00: its wall-clock reading 01:30 is also that of the instant an hour
  before, which is the one returned.
\<close>

lemma zone_round_trip_year_50:
  "getTimeZoneParts sampleHost (Date (- 60589296000000)) ''UTC'' =
     Inr \<lparr>year = 50, month = 1, day = 1, hour = 0, minute = 0, second = 0, millisecond = 0\<rparr>
   \<and> localDateTimeInZoneToUtc sampleHost
       \<lparr>year = 50, month = 1, day = 1, hour = 0, minute = 0, second = 0, millisecond = 0\<rparr>
       ''UTC'' = Inr (Date (- 631152000000))"
  by code_simp

lemma zone_round_trip_repeated_hour:
  "getTimeZoneParts sampleHost (Date 1730615400000) ''America/New_York'' =
     Inr \<lparr>year = 2024, month = 11, day = 3, hour = 1, minute = 30, second = 0, millisecond = 0\<rparr>
   \<and> localDateTimeInZoneToUtc sampleHost
       \<lparr>year = 2024, month = 11, day = 3, hour = 1, minute = 30, second = 0, millisecond = 0\<rparr>
       ''America/New_York'' = Inr (Date 1730611800000)"
  by code_simp

section \<open>Cells\<close>

lemma reinterpret_invalid:
  "reinterpretDateToTimeZone h InvalidDate tz = Inl (Error ''Invalid date'')"
  by (simp add: reinterpretDateToTimeZone_def replaceDateTimeZoneByUserTimeZone_def
      assertValidDate_def)

lemma normalizeCellValue_formula:
  "cellValue cell = Formula f (Some r) \<Longrightarrow> normalizeCellValue h cell pd d tz = Inr r"
  by simp

text \<open>
  C5. The claim: the cached result of a formula cell is normalized by the same rules as
  a plain cell. The source returns the cached result as it is. With the zone
  \<^verbatim>\<open>Asia/Manila\<close>, a formula cell whose cached result is the date 2024-01-01T00:00:00Z
  yields that date unchanged, where a plain cell holding the same date yields
  2023-12-31T16:00:00Z; and a formula cell with a date format whose cached result is
  the serial 45292 yields the number 45292, where the plain numeric cell yields the
  date 2024-01-01.
\<close>
theorem normalizeCellValue_formula_result_as_is:
  "normalizeCellValue sampleHost
     \<lparr>cellValue = Formula ''A1+1'' (Some (DateValue (Date 1704067200000))),
      numFmt = Some ''yyyy-mm-dd''\<rparr> True False (Some ''Asia/Manila'')
     = Inr (DateValue (Date 1704067200000))
   \<and> normalizeCellValue sampleHost
     \<lparr>cellValue = DateValue (Date 1704067200000), numFmt = Some ''yyyy-mm-dd''\<rparr>
     True False (Some ''Asia/Manila'')
     = Inr (DateValue (Date 1704038400000))
   \<and> normalizeCellValue sampleHost
     \<lparr>cellValue = Formula ''A1+1'' (Some (Number (Finite 45292))), numFmt = Some ''yyyy-mm-dd''\<rparr>
     True False None
     = Inr (Number (Finite 45292))
   \<and> normalizeCellValue sampleHost
     \<lparr>cellValue = Number (Finite 45292), numFmt = Some ''yyyy-mm-dd''\<rparr> True False None
     = Inr (DateValue (Date 1704067200000))"
  by code_simp

text \<open>
  C6 (as stated). The claim: a numeric cell whose serial cannot form a finite timestamp
  falls back to the raw number, and never fails or yields a non-finite date. For the
  serial 100000000000 with the format \<^verbatim>\<open>yyyy-mm-dd\<close> the source yields the invalid date
  when no time zone is configured, and fails with \<^verbatim>\<open>Invalid date\<close> when one is.
\<close>
theorem normalizeCellValue_no_fallback_counterexample:
  "normalizeCellValue sampleHost
     \<lparr>cellValue = Number (Finite 100000000000), numFmt = Some ''yyyy-mm-dd''\<rparr> True False None
     = Inr (DateValue InvalidDate)
   \<and> normalizeCellValue sampleHost
     \<lparr>cellValue = Number (Finite 100000000000), numFmt = Some ''yyyy-mm-dd''\<rparr> True False
     (Some ''Asia/Manila'')
     = Inl (Error ''Invalid date'')"
  by code_simp

text \<open>
  C6 (amended). \<open>normalizeCellValue\<close> never fails on account of the cell-format string,
  which it only searches for one of the letters d, m, y, h, s: it never fails at all
  when no time zone is configured, and when it fails a time zone is configured and the
  cell holds a date, or a number that is read as a date. A numeric cell that is read as
  a date and whose serial cannot form a finite timestamp does not fall back to the raw
  number: it yields the invalid date when no time zone is configured, and fails with
  \<^verbatim>\<open>Invalid date\<close> when one is.
\<close>
theorem normalizeCellValue_failures:
  "(\<not> truthy tz \<longrightarrow> (\<exists>v. normalizeCellValue h cell pd d tz = Inr v))
   \<and> (normalizeCellValue h cell pd d tz = Inl e \<longrightarrow>
        truthy tz \<and>
        ((\<exists>dt. cellValue cell = DateValue dt) \<or>
         (\<exists>n fmt. cellValue cell = Number n \<and> pd \<and> numFmt cell = Some fmt \<and> hasDateLetter fmt)))
   \<and> (cellValue cell = Number n \<and> pd \<and> numFmt cell = Some fmt \<and> hasDateLetter fmt \<and>
        excelSerialToDate n d = InvalidDate \<longrightarrow>
        normalizeCellValue h cell pd d tz =
          (if truthy tz then Inl (Error ''Invalid date'') else Inr (DateValue InvalidDate)))"
proof -
  have 1: "\<exists>v. normalizeCellValue h cell pd d tz = Inr v" if "\<not> truthy tz"
    using that by (simp add: Let_def split: cellvalue.splits option.splits)
  have 2: "truthy tz \<and>
        ((\<exists>dt. cellValue cell = DateValue dt) \<or>
         (\<exists>n fmt. cellValue cell = Number n \<and> pd \<and> numFmt cell = Some fmt \<and> hasDateLetter fmt))"
    if "normalizeCellValue h cell pd d tz = Inl e"
    using that by (auto simp: Let_def split: cellvalue.splits option.splits if_splits)
  have 3: "normalizeCellValue h cell pd d tz =
          (if truthy tz then Inl (Error ''Invalid date'') else Inr (DateValue InvalidDate))"
    if "cellValue cell = Number n \<and> pd \<and> numFmt cell = Some fmt \<and> hasDateLetter fmt \<and>
        excelSerialToDate n d = InvalidDate"
    using that by (simp add: reinterpret_invalid)
  show ?thesis using 1 2 3 by blast
qed

text \<open>The amended C6 at the serial 100000000000, with a format that is no format and with a date format.\<close>
theorem normalizeCellValue_failures_witness:
  "(\<exists>v. normalizeCellValue sampleHost
          \<lparr>cellValue = Number (Finite 100000000000), numFmt = Some ''not a [format''\<rparr>
          True False None = Inr v)
   \<and> normalizeCellValue sampleHost
       \<lparr>cellValue = Number (Finite 100000000000), numFmt = Some ''yyyy-mm-dd''\<rparr>
       True False (Some ''Asia/Manila'') = Inl (Error ''Invalid date'')
   \<and> truthy (Some ''Asia/Manila'')"
proof -
  have s: "excelSerialToDate (Finite 100000000000) False = InvalidDate" by code_simp
  have f: "hasDateLetter ''yyyy-mm-dd''" by code_simp
  note a = normalizeCellValue_failures[of None sampleHost
      "\<lparr>cellValue = Number (Finite 100000000000), numFmt = Some ''not a [format''\<rparr>"
      True False]
  note b = normalizeCellValue_failures[of "Some ''Asia/Manila''" sampleHost
      "\<lparr>cellValue = Number (Finite 100000000000), numFmt = Some ''yyyy-mm-dd''\<rparr>"
      True False "Error ''Invalid date''" "Finite 100000000000" "''yyyy-mm-dd''"]
  have 1: "\<exists>v. normalizeCellValue sampleHost
          \<lparr>cellValue = Number (Finite 100000000000), numFmt = Some ''not a [format''\<rparr>
          True False None = Inr v"
    using a by simp
  have 2: "normalizeCellValue sampleHost
       \<lparr>cellValue = Number (Finite 100000000000), numFmt = Some ''yyyy-mm-dd''\<rparr>
       True False (Some ''Asia/Manila'') = Inl (Error ''Invalid date'')"
    using b s f by simp
  have 3: "truthy (Some ''Asia/Manila'')" using b 2 by blast
  show ?thesis using 1 2 3 by blast
qed

section \<open>Rows\<close>






















section \<open>Columns of a write\<close>






section \<open>Batches\<close>

lemma reachable_induct [consumes 1, case_names start step]:
  assumes "reachable handler bs c s0 s"
    and "P s0"
    and "\<And>s e s'. P s \<Longrightarrow> exec handler bs c e s = Some s' \<Longrightarrow> P s'"
  shows "P s"
proof -
  obtain es where es: "run handler bs c es s0 = Some s"
    using assms(1) by (auto simp: reachable_def)
  have "P s0 \<Longrightarrow> run handler bs c es s0 = Some s \<Longrightarrow> P s" for s0
  proof (induction es arbitrary: s0)
    case Nil
    then show ?case by simp
  next
    case (Cons e es)
    then obtain s1 where s1: "exec handler bs c e s0 = Some s1" "run handler bs c es s1 = Some s"
      by (auto split: option.splits)
    show ?case by (rule Cons.IH[OF assms(3)[OF Cons.prems(1) s1(1)] s1(2)])
  qed
  then show ?thesis using assms(2) es by blast
qed

lemma length_removeAll_distinct:
  "distinct xs \<Longrightarrow> i \<in> set xs \<Longrightarrow> Suc (length (removeAll i xs)) = length xs"
  by (induction xs) auto

lemma windowDone_fields:
  "inFlight (windowDone s) = inFlight s" "invocations (windowDone s) = invocations s"
  "phase (windowDone s) = Reading \<or> phase (windowDone s) = Finished None"
  "source (windowDone s) = source s"
  by (simp_all add: windowDone_def)

lemma invariant_initial: "0 < c \<Longrightarrow> admissionInvariant c (initialState bs c src)"
  by (simp add: admissionInvariant_def initialState_def)

lemma invariant_Next:
  assumes c: "0 < c" and i: "admissionInvariant c s" and e: "exec handler bs c Next s = Some s'"
  shows "admissionInvariant c s'"
proof -
  have r: "phase s = Reading" "inFlight s = []" using e i
    by (auto simp: admissionInvariant_def split: if_splits)
  have "inFlight s' = [] \<and> invocations s' = invocations s"
    using e r by (auto simp: Let_def split: if_splits list.splits option.splits)
  then show ?thesis using i c r by (simp add: admissionInvariant_def)
qed

lemma invariant_Launch:
  assumes c: "0 < c" and i: "admissionInvariant c s" and e: "exec handler bs c Launch s = Some s'"
  shows "admissionInvariant c s'"
proof -
  have l: "phase s = Launching" using e by (auto split: if_splits)
  then have lt: "of_nat (length (inFlight s)) < c" using i by (simp add: admissionInvariant_def)
  show ?thesis
  proof (cases "todo s")
    case Nil
    then have s': "s' = (if inFlight s = [] then windowDone s else s\<lparr>phase := AwaitAll\<rparr>)"
      using e l by simp
    show ?thesis
    proof (cases "inFlight s = []")
      case True
      then show ?thesis using i s' c windowDone_fields(3)[of s]
        by (auto simp: admissionInvariant_def windowDone_fields)
    next
      case False
      then show ?thesis using i s' by (simp add: admissionInvariant_def)
    qed
  next
    case (Cons item rest)
    define n where "n = length (invocations s)"
    have s': "inFlight s' = inFlight s @ [n]" "invocations s' = invocations s @ [(item, Queued)]"
      "phase s' = (if of_nat (length (inFlight s @ [n])) \<ge> c then AwaitRace else Launching)"
      using e l Cons by (auto simp: Let_def n_def)
    have old: "\<forall>j \<in> set (inFlight s). j < n" "distinct (inFlight s)"
      "\<forall>j < n. (\<exists>result. snd (invocations s ! j) = Settled result) \<or> j \<in> set (inFlight s)"
      using i by (auto simp: admissionInvariant_def n_def)
    have 1: "distinct (inFlight s')" using old s' by auto
    have 2: "\<forall>j \<in> set (inFlight s'). j < length (invocations s')"
      using old s' by (auto simp: n_def)
    have 3: "\<forall>j < length (invocations s').
        (\<exists>result. snd (invocations s' ! j) = Settled result) \<or> j \<in> set (inFlight s')"
    proof (intro allI impI)
      fix j assume "j < length (invocations s')"
      then have "j < n \<or> j = n" using s' by (auto simp: n_def)
      then show "(\<exists>result. snd (invocations s' ! j) = Settled result) \<or> j \<in> set (inFlight s')"
        using old(3) s' by (auto simp: nth_append n_def)
    qed
    have 4: "of_nat (length (inFlight s')) < c + 1" using lt s' by simp
    have 5: "phase s' = Launching \<or> phase s' = RaceWon \<longrightarrow> of_nat (length (inFlight s')) < c"
      using s' by (auto split: if_splits)
    have 6: "phase s' \<noteq> Reading" using s' by (auto split: if_splits)
    show ?thesis using 1 2 3 4 5 6 by (simp add: admissionInvariant_def)
  qed
qed

lemma invariant_Start:
  assumes i: "admissionInvariant c s" and e: "exec handler bs c (Start k) s = Some s'"
  shows "admissionInvariant c s'"
proof -
  obtain item where k: "k < length (invocations s)" "invocations s ! k = (item, Queued)"
      "s' = s\<lparr>invocations := (invocations s)[k := (item, Running)]\<rparr>"
    using e by (auto split: if_splits prod.splits status.splits)
  have "k \<in> set (inFlight s)" using i k(1,2) by (auto simp: admissionInvariant_def)
  then show ?thesis using i k by (auto simp: admissionInvariant_def nth_list_update)
qed

lemma invariant_Finish:
  assumes i: "admissionInvariant c s" and e: "exec handler bs c (Finish k) s = Some s'"
  shows "admissionInvariant c s'"
proof -
  obtain item where k: "k < length (invocations s)" "invocations s ! k = (item, Running)"
      "s' = s\<lparr>invocations := (invocations s)[k := (item, Settled (handler item))]\<rparr>"
    using e by (auto split: if_splits prod.splits status.splits)
  show ?thesis using i k by (auto simp: admissionInvariant_def nth_list_update)
qed

lemma invariant_React:
  assumes i: "admissionInvariant c s" and e: "exec handler bs c (React k) s = Some s'"
  shows "admissionInvariant c s'"
proof -
  obtain item result where k: "phase s \<noteq> Launching" "k < length (invocations s)"
      "k \<in> set (inFlight s)" "invocations s ! k = (item, Settled result)"
    using e by (auto split: if_splits prod.splits status.splits)
  have fields: "inFlight s' = removeAll k (inFlight s)" "invocations s' = invocations s"
    using e k
    by (auto simp: Let_def windowDone_def split: phase.splits outcome.splits if_splits)
  have ph: "phase s' = Reading \<longrightarrow> removeAll k (inFlight s) = []"
    using e k i
    by (auto simp: Let_def windowDone_def admissionInvariant_def
        split: phase.splits outcome.splits if_splits)
  have len: "Suc (length (removeAll k (inFlight s))) = length (inFlight s)"
    using i k(3) by (simp add: admissionInvariant_def length_removeAll_distinct)
  have lt: "of_nat (length (removeAll k (inFlight s))) < c"
  proof -
    have "of_nat (length (inFlight s)) < c + 1" using i by (simp add: admissionInvariant_def)
    moreover have "(of_nat (length (inFlight s)) :: rat)
        = of_nat (length (removeAll k (inFlight s))) + 1"
      by (simp add: len[symmetric])
    ultimately show ?thesis by simp
  qed
  have inv: "distinct (inFlight s)" "\<forall>j \<in> set (inFlight s). j < length (invocations s)"
    "\<forall>j < length (invocations s).
        (\<exists>result. snd (invocations s ! j) = Settled result) \<or> j \<in> set (inFlight s)"
    using i by (simp_all add: admissionInvariant_def)
  have b1: "distinct (removeAll k (inFlight s))" using inv(1) by (rule distinct_removeAll)
  have b2: "\<forall>j \<in> set (removeAll k (inFlight s)). j < length (invocations s)"
    using inv(2) by simp
  have b3: "\<forall>j < length (invocations s).
        (\<exists>result. snd (invocations s ! j) = Settled result) \<or> j \<in> set (removeAll k (inFlight s))"
  proof (intro allI impI)
    fix j assume j: "j < length (invocations s)"
    show "(\<exists>result. snd (invocations s ! j) = Settled result) \<or> j \<in> set (removeAll k (inFlight s))"
    proof (cases "j = k")
      case True
      then show ?thesis using k(4) by simp
    next
      case False
      then show ?thesis using inv(3) j by simp
    qed
  qed
  note base = b1 b2 b3
  show ?thesis using base lt ph by (simp add: admissionInvariant_def fields)
qed

lemma invariant_Resume:
  assumes i: "admissionInvariant c s" and e: "exec handler bs c Resume s = Some s'"
  shows "admissionInvariant c s'"
  using i e by (auto simp: admissionInvariant_def split: if_splits)

lemma invariant_step:
  assumes "0 < c" "admissionInvariant c s" "exec handler bs c e s = Some s'"
  shows "admissionInvariant c s'"
  using assms
  by (cases e)
    (auto intro: invariant_Next invariant_Launch invariant_Start invariant_Finish invariant_React
      invariant_Resume)

lemma invariant_reachable:
  assumes "reachable handler bs c (initialState bs c src) s" "0 < c"
  shows "admissionInvariant c s"
  using assms(1)
  by (induction rule: reachable_induct)
    (auto intro: invariant_initial[OF assms(2)] invariant_step[OF assms(2)])

lemma running_in_flight: "admissionInvariant c s \<Longrightarrow> running s \<subseteq> set (inFlight s)"
  by (auto simp: admissionInvariant_def running_def)

text \<open>
  For any positive \<open>concurrency\<close>, whole or not, fewer than \<open>concurrency + 1\<close> invocations
  run at a time: the loop launches while \<open>inFlight.size < concurrency\<close>.
\<close>
lemma admission_bound_any_concurrency:
  assumes "reachable handler bs c (initialState bs c src) s" "0 < c"
  shows "of_nat (card (running s)) < c + 1"
proof -
  have i: "admissionInvariant c s" by (rule invariant_reachable[OF assms])
  have "card (running s) \<le> card (set (inFlight s))"
    by (rule card_mono[OF _ running_in_flight[OF i]]) simp
  also have "\<dots> \<le> length (inFlight s)" by (rule card_length)
  finally have "(of_nat (card (running s)) :: rat) \<le> of_nat (length (inFlight s))" by simp
  moreover have "of_nat (length (inFlight s)) < c + 1" using i by (simp add: admissionInvariant_def)
  ultimately show ?thesis by simp
qed





lemma finished_stuck:
  assumes "phase s = Finished r" "invocations s = []"
  shows "exec handler bs c e s = None"
  using assms by (cases e) simp_all

text \<open>
  C9. For every input, handler and schedule: with \<open>batchSize \<le> 0\<close> or \<open>concurrency \<le> 0\<close>
  (after the defaults 2000 and 8) the call leaves the function rejected with the
  invalid-argument error, and that state is the only one ever reached: the reader still
  has all of its rows, and no handler invocation exists.
\<close>
theorem fail_fast:
  assumes bad: "orDefault (batchSize opts) 2000 \<le> 0 \<or> orDefault (concurrency opts) 8 \<le> 0"
    and r: "reachable handler (orDefault (batchSize opts) 2000) (orDefault (concurrency opts) 8)
              (processXlsxLarge h input opts) s"
  shows "s = processXlsxLarge h input opts
       \<and> (phase s = Finished (Some (Error ''batchSize must be > 0''))
          \<or> phase s = Finished (Some (Error ''concurrency must be > 0'')))
       \<and> source s = fst (xlsxToObjects h input opts)
       \<and> sourceEnd s = snd (xlsxToObjects h input opts)
       \<and> batch s = [] \<and> invocations s = []"
proof -
  define s0 where "s0 = processXlsxLarge h input opts"
  have p: "phase s0 = Finished (Some (Error ''batchSize must be > 0''))
          \<or> phase s0 = Finished (Some (Error ''concurrency must be > 0''))"
    using bad by (auto simp: s0_def processXlsxLarge_def initialState_def)
  have f: "source s0 = fst (xlsxToObjects h input opts)"
    "sourceEnd s0 = snd (xlsxToObjects h input opts)" "batch s0 = []" "invocations s0 = []"
    by (simp_all add: s0_def processXlsxLarge_def initialState_def)
  have "s = s0"
    using r unfolding s0_def[symmetric]
  proof (induction rule: reachable_induct)
    case start
    show ?case by (rule refl)
  next
    case (step s e s')
    then show ?case using finished_stuck[of s0 _ handler _ _ e] p f(4) by auto
  qed
  then show ?thesis using p f by (simp add: s0_def)
qed

text \<open>C9 with \<open>batchSize = 0\<close> on the sample worksheet.\<close>
theorem fail_fast_witness:
  "processXlsxLarge sampleHost [sampleSheet] (noProcessOptions\<lparr>batchSize := Some 0\<rparr>)
     = \<lparr>source = [[(''id'', Number (Finite 7)), (''name'', Text ''Ann'')],
                  [(''id'', Null), (''name'', Text ''Bob'')]],
        sourceEnd = None, batch = [], todo = [], lastWindow = False, invocations = [],
        inFlight = [], phase = Finished (Some (Error ''batchSize must be > 0''))\<rparr>
   \<and> source (processXlsxLarge sampleHost [sampleSheet] (noProcessOptions\<lparr>batchSize := Some 0\<rparr>))
     = fst (xlsxToObjects sampleHost [sampleSheet] (noProcessOptions\<lparr>batchSize := Some 0\<rparr>))"
proof -
  have b: "orDefault (batchSize (noProcessOptions\<lparr>batchSize := Some 0\<rparr>)) 2000 \<le> 0
      \<or> orDefault (concurrency (noProcessOptions\<lparr>batchSize := Some 0\<rparr>)) 8 \<le> 0"
    by simp
  have r: "reachable (\<lambda>row. Fulfilled)
      (orDefault (batchSize (noProcessOptions\<lparr>batchSize := Some 0\<rparr>)) 2000)
      (orDefault (concurrency (noProcessOptions\<lparr>batchSize := Some 0\<rparr>)) 8)
      (processXlsxLarge sampleHost [sampleSheet] (noProcessOptions\<lparr>batchSize := Some 0\<rparr>))
      (processXlsxLarge sampleHost [sampleSheet] (noProcessOptions\<lparr>batchSize := Some 0\<rparr>))"
    unfolding reachable_def by (rule exI[of _ "[]"]) simp
  have e: "processXlsxLarge sampleHost [sampleSheet] (noProcessOptions\<lparr>batchSize := Some 0\<rparr>)
     = \<lparr>source = [[(''id'', Number (Finite 7)), (''name'', Text ''Ann'')],
                  [(''id'', Null), (''name'', Text ''Bob'')]],
        sourceEnd = None, batch = [], todo = [], lastWindow = False, invocations = [],
        inFlight = [], phase = Finished (Some (Error ''batchSize must be > 0''))\<rparr>"
    by code_simp
  show ?thesis using fail_fast[OF b r] e by simp
qed

text \<open>
  C4 (as stated). The claim: a failure reaches the caller only when the window's wait-all
  is over, the remaining invocations of the window having run to completion. A window
  of the two rows 2 and 1, with a handler that fails on 2: both invocations are started,
  the first one fails, and its reaction rejects the \<^verbatim>\<open>Promise.all\<close> and with it the
  function, while the second invocation is still running.
\<close>
theorem failure_surfaces_before_window_ends_counterexample:
  "run failsOnTwo 2 8 [Next, Next, Launch, Launch, Launch, Start 0, Start 1, Finish 0, React 0]
     (initialState 2 8 ([2, 1], None))
   = Some \<lparr>source = [], sourceEnd = None, batch = [2, 1], todo = [], lastWindow = False,
           invocations = [(2, Settled (Rejected (Error ''no 2''))), (1, Running)],
           inFlight = [1], phase = Finished (Some (Error ''no 2''))\<rparr>"
  by code_simp

text \<open>
  A failure can also miss the caller. With \<open>concurrency = 2\<close> and the rows 1, 2, 3: the first
  two handlers end in the same turn, the first fulfils the race, and the second's
  failure is deleted from \<open>inFlight\<close> before the loop goes on; the function fulfils.
\<close>
lemma failure_lost:
  "run failsOnTwo 3 2
     [Next, Next, Next, Launch, Launch, Start 0, Finish 0, Start 1, Finish 1, React 0, React 1,
      Resume, Launch, Launch, Start 2, Finish 2, React 2, Next]
     (initialState 3 2 ([1, 2, 3], None))
   = Some \<lparr>source = [], sourceEnd = None, batch = [], todo = [], lastWindow = False,
           invocations = [(1, Settled Fulfilled), (2, Settled (Rejected (Error ''no 2''))),
                          (3, Settled Fulfilled)],
           inFlight = [], phase = Finished None\<rparr>"
  by code_simp

lemma exec_invocations:
  assumes "exec handler bs c e s = Some s'"
  shows "invocations s' = invocations s
     \<or> (\<exists>item. invocations s' = invocations s @ [(item, Queued)])
     \<or> (\<exists>k item. k < length (invocations s) \<and> invocations s ! k = (item, Queued) \<and>
           invocations s' = (invocations s)[k := (item, Running)])
     \<or> (\<exists>k item. k < length (invocations s) \<and> invocations s ! k = (item, Running) \<and>
           invocations s' = (invocations s)[k := (item, Settled (handler item))])"
proof (cases e)
  case Next
  then have "invocations s' = invocations s" using assms
    by (auto simp: Let_def split: if_splits list.splits option.splits)
  then show ?thesis by simp
next
  case Launch
  then have "invocations s' = invocations s
     \<or> (\<exists>item. invocations s' = invocations s @ [(item, Queued)])" using assms
    by (auto simp: Let_def windowDone_def split: if_splits list.splits)
  then show ?thesis by blast
next
  case (Start k)
  then obtain item where "k < length (invocations s)" "invocations s ! k = (item, Queued)"
      "invocations s' = (invocations s)[k := (item, Running)]"
    using assms by (auto split: if_splits prod.splits status.splits)
  then show ?thesis by blast
next
  case (Finish k)
  then obtain item where "k < length (invocations s)" "invocations s ! k = (item, Running)"
      "invocations s' = (invocations s)[k := (item, Settled (handler item))]"
    using assms by (auto split: if_splits prod.splits status.splits)
  then show ?thesis by blast
next
  case (React k)
  then have "invocations s' = invocations s" using assms
    by (auto simp: Let_def windowDone_def
        split: if_splits prod.splits status.splits phase.splits outcome.splits)
  then show ?thesis by simp
next
  case Resume
  then have "invocations s' = invocations s" using assms by (auto split: if_splits)
  then show ?thesis by simp
qed

lemma settled_persists:
  assumes e: "exec handler bs c e s = Some s'"
    and i: "i < length (invocations s)" "invocations s ! i = (item, Settled res)"
  shows "i < length (invocations s') \<and> invocations s' ! i = (item, Settled res)"
  using exec_invocations[OF e] i by (auto simp: nth_append nth_list_update)

lemma settled_by_handler:
  assumes e: "exec handler bs c e s = Some s'"
    and h: "\<forall>i < length (invocations s). \<forall>item res.
              invocations s ! i = (item, Settled res) \<longrightarrow> res = handler item"
  shows "\<forall>i < length (invocations s'). \<forall>item res.
              invocations s' ! i = (item, Settled res) \<longrightarrow> res = handler item"
  using exec_invocations[OF e] h
  by (elim disjE exE conjE) (auto simp: nth_append nth_list_update split: if_splits)

lemma exec_sourceEnd: "exec handler bs c e s = Some s' \<Longrightarrow> sourceEnd s' = sourceEnd s"
proof (cases e)
  case Next
  assume "exec handler bs c e s = Some s'"
  then show ?thesis using Next
    by (auto simp: Let_def split: if_splits list.splits option.splits)
next
  case Launch
  assume "exec handler bs c e s = Some s'"
  then show ?thesis using Launch
    by (auto simp: Let_def windowDone_def split: if_splits list.splits)
next
  case (Start k)
  assume "exec handler bs c e s = Some s'"
  then show ?thesis using Start by (auto split: if_splits prod.splits status.splits)
next
  case (Finish k)
  assume "exec handler bs c e s = Some s'"
  then show ?thesis using Finish by (auto split: if_splits prod.splits status.splits)
next
  case (React k)
  assume "exec handler bs c e s = Some s'"
  then show ?thesis using React
    by (auto simp: Let_def windowDone_def
        split: if_splits prod.splits status.splits phase.splits outcome.splits)
next
  case Resume
  assume "exec handler bs c e s = Some s'"
  then show ?thesis using Resume by (auto split: if_splits)
qed

lemma exec_rejects:
  assumes "exec handler bs c e s = Some s'" "phase s' = Finished (Some err)"
  shows "phase s = Finished (Some err) \<or> sourceEnd s = Some err
     \<or> (\<exists>k item. k < length (invocations s) \<and> invocations s ! k = (item, Settled (Rejected err)))"
proof (cases e)
  case Next
  then show ?thesis using assms
    by (auto simp: Let_def split: if_splits list.splits option.splits)
next
  case Launch
  then show ?thesis using assms
    by (auto simp: Let_def windowDone_def split: if_splits list.splits)
next
  case (Start k)
  then show ?thesis using assms by (auto split: if_splits prod.splits status.splits)
next
  case (Finish k)
  then show ?thesis using assms by (auto split: if_splits prod.splits status.splits)
next
  case (React k)
  then show ?thesis using assms
    by (auto simp: Let_def windowDone_def
        split: if_splits prod.splits status.splits phase.splits outcome.splits)
next
  case Resume
  then show ?thesis using assms by (auto split: if_splits)
qed

lemma finished_step:
  assumes "phase s = Finished r" "exec handler bs c e s = Some s'"
  shows "phase s' = Finished r \<and> source s' = source s \<and> batch s' = batch s \<and> todo s' = todo s
       \<and> length (invocations s') = length (invocations s)
       \<and> (\<exists>i. e = Start i \<or> e = Finish i \<or> e = React i)"
proof (cases e)
  case Next
  then show ?thesis using assms by simp
next
  case Launch
  then show ?thesis using assms by simp
next
  case (Start k)
  then show ?thesis using assms by (auto split: if_splits prod.splits status.splits)
next
  case (Finish k)
  then show ?thesis using assms by (auto split: if_splits prod.splits status.splits)
next
  case (React k)
  then show ?thesis using assms
    by (auto simp: Let_def split: if_splits prod.splits status.splits)
next
  case Resume
  then show ?thesis using assms by simp
qed

lemma failure_origin:
  assumes "reachable handler bs c (initialState bs c src) s"
  shows "sourceEnd s = snd src
       \<and> (\<forall>i < length (invocations s). \<forall>item res.
              invocations s ! i = (item, Settled res) \<longrightarrow> res = handler item)
       \<and> (\<forall>err. phase s = Finished (Some err) \<longrightarrow>
              err = Error ''batchSize must be > 0'' \<or> err = Error ''concurrency must be > 0''
            \<or> snd src = Some err
            \<or> (\<exists>k item. k < length (invocations s) \<and>
                  invocations s ! k = (item, Settled (Rejected err))))"
  using assms
proof (induction rule: reachable_induct)
  case start
  show ?case by (simp add: initialState_def)
next
  case (step s e s')
  have 1: "sourceEnd s' = snd src" using exec_sourceEnd[OF step(2)] step(1) by simp
  have 2: "\<forall>i < length (invocations s'). \<forall>item res.
              invocations s' ! i = (item, Settled res) \<longrightarrow> res = handler item"
    using settled_by_handler[OF step(2)] step(1) by blast
  have 3: "err = Error ''batchSize must be > 0'' \<or> err = Error ''concurrency must be > 0''
            \<or> snd src = Some err
            \<or> (\<exists>k item. k < length (invocations s') \<and>
                  invocations s' ! k = (item, Settled (Rejected err)))"
    if f: "phase s' = Finished (Some err)" for err
  proof -
    from exec_rejects[OF step(2) f]
    consider "phase s = Finished (Some err)" | "sourceEnd s = Some err"
      | k item where "k < length (invocations s)" "invocations s ! k = (item, Settled (Rejected err))"
      by blast
    then show ?thesis
    proof cases
      case 1
      then consider "err = Error ''batchSize must be > 0''" | "err = Error ''concurrency must be > 0''"
        | "snd src = Some err"
        | k item where "k < length (invocations s)" "invocations s ! k = (item, Settled (Rejected err))"
        using step(1) by blast
      then show ?thesis
      proof cases
        case 4
        then show ?thesis using settled_persists[OF step(2) 4] by blast
      qed blast+
    next
      case 2
      then show ?thesis using step(1) by simp
    next
      case 3
      then show ?thesis using settled_persists[OF step(2) 3] by blast
    qed
  qed
  show ?case using 1 2 3 by blast
qed

lemma React_rejected:
  assumes "phase s = AwaitRace \<or> phase s = AwaitAll" "i < length (invocations s)"
    "i \<in> set (inFlight s)" "invocations s ! i = (item, Settled (Rejected err))"
  shows "\<exists>s'. exec handler bs c (React i) s = Some s' \<and> phase s' = Finished (Some err)
       \<and> invocations s' = invocations s \<and> source s' = source s \<and> todo s' = todo s"
  using assms by (auto simp: Let_def)

lemma Finish_running:
  assumes "phase s = Finished r" "i < length (invocations s)" "invocations s ! i = (item, Running)"
  shows "\<exists>s'. exec handler bs c (Finish i) s = Some s' \<and>
           invocations s' ! i = (item, Settled (handler item))"
  using assms by simp

text \<open>
  C4 (amended). In every reachable state: when the window waits at its race or at its
  wait-all and a promise in flight has rejected, the reaction to that promise rejects
  the function with that failure at once, whatever the state of the other invocations
  of the window, which it leaves as they are; once the function has settled, its
  outcome stays, no further row is read and no further item launched, and the only
  steps left are those of the invocations already created, which are not cancelled: one
  that is running can still run to completion. An error with which the function
  rejects is an invalid argument, the reader's error, or the failure of an invocation
  of the handler.
\<close>
theorem handler_failure_surfaces_at_once:
  assumes r: "reachable handler bs c (initialState bs c src) s"
  shows "(\<forall>i item err. (phase s = AwaitRace \<or> phase s = AwaitAll) \<and> i < length (invocations s) \<and>
            i \<in> set (inFlight s) \<and> invocations s ! i = (item, Settled (Rejected err)) \<longrightarrow>
            (\<exists>s'. exec handler bs c (React i) s = Some s' \<and> phase s' = Finished (Some err)
                 \<and> invocations s' = invocations s \<and> source s' = source s \<and> todo s' = todo s))
       \<and> (\<forall>res e s'. phase s = Finished res \<and> exec handler bs c e s = Some s' \<longrightarrow>
            phase s' = Finished res \<and> source s' = source s \<and> batch s' = batch s \<and> todo s' = todo s
          \<and> length (invocations s') = length (invocations s)
          \<and> (\<exists>i. e = Start i \<or> e = Finish i \<or> e = React i))
       \<and> (\<forall>res i item. phase s = Finished res \<and> i < length (invocations s) \<and>
            invocations s ! i = (item, Running) \<longrightarrow>
            (\<exists>s'. exec handler bs c (Finish i) s = Some s' \<and>
                  invocations s' ! i = (item, Settled (handler item))))
       \<and> (\<forall>err. phase s = Finished (Some err) \<longrightarrow>
            err = Error ''batchSize must be > 0'' \<or> err = Error ''concurrency must be > 0''
          \<or> snd src = Some err
          \<or> (\<exists>k item. k < length (invocations s) \<and> handler item = Rejected err \<and>
                invocations s ! k = (item, Settled (Rejected err))))"
proof -
  note o = failure_origin[OF r]
  have 4: "err = Error ''batchSize must be > 0'' \<or> err = Error ''concurrency must be > 0''
          \<or> snd src = Some err
          \<or> (\<exists>k item. k < length (invocations s) \<and> handler item = Rejected err \<and>
                invocations s ! k = (item, Settled (Rejected err)))"
    if "phase s = Finished (Some err)" for err
    using o that by metis
  show ?thesis
    using React_rejected[of s _ _ _ handler bs c] finished_step[of s _ handler bs c]
      Finish_running[of s _ _ _ handler bs c] 4
    by blast
qed

text \<open>The amended C4 in the window of the rows 2 and 1, before and after the failure surfaces.\<close>
theorem handler_failure_surfaces_at_once_witness:
  "(\<exists>s'. exec failsOnTwo 2 8 (React 0)
            \<lparr>source = [], sourceEnd = None, batch = [2, 1], todo = [], lastWindow = False,
             invocations = [(2, Settled (Rejected (Error ''no 2''))), (1, Running)],
             inFlight = [0, 1], phase = AwaitAll\<rparr> = Some s'
         \<and> phase s' = Finished (Some (Error ''no 2''))
         \<and> invocations s' = [(2, Settled (Rejected (Error ''no 2''))), (1, Running)]
         \<and> source s' = [] \<and> todo s' = [])
   \<and> (\<exists>s'. exec failsOnTwo 2 8 (Finish 1)
            \<lparr>source = [], sourceEnd = None, batch = [2, 1], todo = [], lastWindow = False,
             invocations = [(2, Settled (Rejected (Error ''no 2''))), (1, Running)],
             inFlight = [1], phase = Finished (Some (Error ''no 2''))\<rparr> = Some s'
         \<and> invocations s' ! 1 = (1, Settled (failsOnTwo 1)))"
proof -
  define s1 :: "nat pstate" where "s1 =
            \<lparr>source = [], sourceEnd = None, batch = [2, 1], todo = [], lastWindow = False,
             invocations = [(2, Settled (Rejected (Error ''no 2''))), (1, Running)],
             inFlight = [0, 1], phase = AwaitAll\<rparr>"
  define s2 :: "nat pstate" where "s2 =
            \<lparr>source = [], sourceEnd = None, batch = [2, 1], todo = [], lastWindow = False,
             invocations = [(2, Settled (Rejected (Error ''no 2''))), (1, Running)],
             inFlight = [1], phase = Finished (Some (Error ''no 2''))\<rparr>"
  have "run failsOnTwo 2 8 [Next, Next, Launch, Launch, Launch, Start 0, Start 1, Finish 0]
      (initialState 2 8 ([2, 1], None)) = Some s1"
    unfolding s1_def by code_simp
  then have r1: "reachable failsOnTwo 2 8 (initialState 2 8 ([2, 1], None)) s1"
    unfolding reachable_def by (rule exI)
  have "run failsOnTwo 2 8 [Next, Next, Launch, Launch, Launch, Start 0, Start 1, Finish 0, React 0]
      (initialState 2 8 ([2, 1], None)) = Some s2"
    unfolding s2_def by code_simp
  then have r2: "reachable failsOnTwo 2 8 (initialState 2 8 ([2, 1], None)) s2"
    unfolding reachable_def by (rule exI)
  have a: "(phase s1 = AwaitRace \<or> phase s1 = AwaitAll) \<and> 0 < length (invocations s1) \<and>
      0 \<in> set (inFlight s1) \<and> invocations s1 ! 0 = (2, Settled (Rejected (Error ''no 2'')))"
    by (simp add: s1_def)
  have b: "phase s2 = Finished (Some (Error ''no 2'')) \<and> 1 < length (invocations s2) \<and>
      invocations s2 ! 1 = (1, Running)"
    by (simp add: s2_def)
  have 1: "\<exists>s'. exec failsOnTwo 2 8 (React 0) s1 = Some s' \<and> phase s' = Finished (Some (Error ''no 2''))
         \<and> invocations s' = invocations s1 \<and> source s' = source s1 \<and> todo s' = todo s1"
    using handler_failure_surfaces_at_once[OF r1] a by blast
  have 2: "\<exists>s'. exec failsOnTwo 2 8 (Finish 1) s2 = Some s' \<and>
      invocations s' ! 1 = (1, Settled (failsOnTwo 1))"
    using handler_failure_surfaces_at_once[OF r2] b by blast
  show ?thesis using 1 2 unfolding s1_def s2_def by simp
qed

end
